theory Spec2Isabelle
  imports Main "HOL-Library.Multiset"
begin

section \<open>The batch image downloader (ClipboardImageDownloader)\<close>

text \<open>
  A shallow embedding of the class \<^verbatim>\<open>ClipboardImageDownloader\<close>: the classifier
  \<^verbatim>\<open>is_image_url\<close>, the naming of destination files, the fetch with validation and
  retries (\<^verbatim>\<open>download_image\<close>), the worker and the batch driver \<^verbatim>\<open>download_all\<close>.

  Python strings and byte strings are \<open>string\<close>. Exceptions are values of \<open>exn\<close>, and a
  computation that may raise returns \<open>exn + 'a\<close>. The messages of the source's own
  \<^verbatim>\<open>ValueError\<close>s are given in English.
\<close>

subsection \<open>Data\<close>

type_synonym url = string
type_synonym path = string
type_synonym bytes = string
type_synonym digest = string

datatype exn =
    RequestException string
  | HTTPError
  | ValueError string
  | OSError string

text \<open>
  What one \<^verbatim>\<open>requests.get(url, stream=True)\<close> answered: whether the status passes
  \<^verbatim>\<open>raise_for_status()\<close>, the integer read from the Content-Length header (0 when the
  header is absent), whether the lower-cased Content-Type contains \<^verbatim>\<open>image/\<close>, and the body.
\<close>

record response =
  status_ok :: bool
  content_length :: int
  content_type_image :: bool
  body :: bytes

datatype request = GET url | HEAD url

text \<open>
  The world outside the downloader object: the files on disk and the requests sent so far.
\<close>

record world =
  files :: "path \<rightharpoonup> bytes"
  net_log :: "request list"

text \<open>
  One part of a \<^verbatim>\<open>rename_pattern\<close>: literal text or one of the placeholders the
  source passes to \<^verbatim>\<open>str.format\<close>. \<open>Index w\<close> is \<^verbatim>\<open>{index:0wd}\<close>
  (\<open>Index 0\<close> is \<^verbatim>\<open>{index}\<close>).
\<close>

datatype token = Lit string | Index nat | Filename | Timestamp | Date | Time

record config =
  save_dir :: path
  max_workers :: int
  rename_pattern :: "token list"
  auto_create_subdir :: bool
  deduplicate :: bool
  supported_extensions :: "string list"
  min_file_size :: int
  max_file_size :: int
  retry_attempts :: int
  retry_delay :: int

text \<open>
  The library and the environment, as parameters: the network answers a request as a
  function of the URL and of the number of requests sent before it; \<open>urlparse_path\<close> is
  \<^verbatim>\<open>urlparse(url).path\<close> (it may raise); \<open>image_open\<close> and \<open>image_verify\<close> say whether
  PIL opens, and opens and verifies, the given bytes; \<open>md5\<close> is
  \<^verbatim>\<open>hashlib.md5(...).hexdigest()\<close>; \<open>clock i\<close> is \<^verbatim>\<open>int(time.time())\<close> while the
  \<open>i\<close>-th URL of a batch is named, \<open>date_str\<close>, \<open>time_str\<close> and \<open>subdir_name\<close> are
  the results of \<^verbatim>\<open>strftime\<close>.
\<close>

record env =
  http_get :: "url \<Rightarrow> nat \<Rightarrow> exn + response"
  http_head :: "url \<Rightarrow> nat \<Rightarrow> exn + string"
  urlparse_path :: "url \<Rightarrow> exn + string"
  unquote :: "string \<Rightarrow> string"
  guess_extension :: "string \<Rightarrow> string option"
  image_open :: "bytes \<Rightarrow> bool"
  image_verify :: "bytes \<Rightarrow> bool"
  md5 :: "bytes \<Rightarrow> digest"
  clock :: "nat \<Rightarrow> nat"
  date_str :: "nat \<Rightarrow> string"
  time_str :: "nat \<Rightarrow> string"
  subdir_name :: string

subsection \<open>Files\<close>

definition write_file :: "path \<Rightarrow> bytes \<Rightarrow> world \<Rightarrow> world" where
  "write_file p b w = w\<lparr>files := (files w)(p \<mapsto> b)\<rparr>"

definition delete_file :: "path \<Rightarrow> world \<Rightarrow> world" where
  "delete_file p w = w\<lparr>files := (files w)(p := None)\<rparr>"

definition path_exists :: "path \<Rightarrow> world \<Rightarrow> bool" where
  "path_exists p w = (files w p \<noteq> None)"

text \<open>\<^verbatim>\<open>os.remove\<close> raises when there is no such file.\<close>

definition os_remove :: "path \<Rightarrow> world \<Rightarrow> exn + world" where
  "os_remove p w =
     (if path_exists p w then Inr (delete_file p w)
      else Inl (OSError ''No such file or directory''))"

text \<open>
  \<^verbatim>\<open>calculate_file_hash\<close>: the digest of the file's bytes, \<^verbatim>\<open>None\<close> when reading
  raises.
\<close>

definition calculate_file_hash :: "env \<Rightarrow> path \<Rightarrow> world \<Rightarrow> digest option" where
  "calculate_file_hash e filepath w =
     (case files w filepath of
        None \<Rightarrow> None
      | Some b \<Rightarrow> Some (md5 e b))"

subsection \<open>The fetch: one try, and the retries\<close>

text \<open>
  The body of the \<^verbatim>\<open>try\<close> block of \<^verbatim>\<open>download_image\<close>: the request, the checks on
  the declared length and on the content type, the write of the body to \<open>save_path\<close>, and
  the two checks on the written file, each of which removes the file before it raises.
\<close>

definition download_try :: "env \<Rightarrow> config \<Rightarrow> url \<Rightarrow> path \<Rightarrow> world \<Rightarrow> (exn + bool) \<times> world" where
  "download_try e cfg u save_path w =
     (let w1 = w\<lparr>net_log := net_log w @ [GET u]\<rparr> in
      case http_get e u (length (net_log w)) of
        Inl err \<Rightarrow> (Inl err, w1)
      | Inr r \<Rightarrow>
          if \<not> status_ok r then (Inl HTTPError, w1)
          else if content_length r > max_file_size cfg
            then (Inl (ValueError ''file too large''), w1)
          else if content_length r > 0 \<and> content_length r < min_file_size cfg
            then (Inl (ValueError ''file too small''), w1)
          else if \<not> content_type_image r \<and> \<not> image_open e (take 100 (body r))
            then (Inl (ValueError ''content is not a valid image''), w1)
          else
            let w2 = write_file save_path (body r) w1 in
            if int (length (body r)) < min_file_size cfg
              then (Inl (ValueError ''downloaded file too small''), delete_file save_path w2)
            else if \<not> image_verify e (body r)
              then (Inl (ValueError ''downloaded file is not a valid image''),
                    delete_file save_path w2)
            else (Inr True, w2))"

text \<open>
  \<^verbatim>\<open>download_image(url, save_path, retry_count)\<close>: on any exception of the try, if
  \<open>retry_count < retry_attempts\<close> it sleeps and calls itself with \<open>retry_count + 1\<close>,
  otherwise it raises that exception again. \<^verbatim>\<open>time.sleep\<close> raises on a negative delay.
\<close>

function download_image ::
  "env \<Rightarrow> config \<Rightarrow> url \<Rightarrow> path \<Rightarrow> nat \<Rightarrow> world \<Rightarrow> (exn + bool) \<times> world" where
  "download_image e cfg u save_path retry_count w =
     (case download_try e cfg u save_path w of
        (Inr ok, w') \<Rightarrow> (Inr ok, w')
      | (Inl err, w') \<Rightarrow>
          if int retry_count < retry_attempts cfg then
            if retry_delay cfg < 0
              then (Inl (ValueError ''sleep length must be non-negative''), w')
            else download_image e cfg u save_path (retry_count + 1) w'
          else (Inl err, w'))"
  by pat_completeness auto
termination
  by (relation "measure (\<lambda>(e, cfg, u, p, rc, w). nat (retry_attempts cfg - int rc))") auto

declare download_image.simps [simp del]



subsection \<open>Strings\<close>

text \<open>\<^verbatim>\<open>str.lower\<close> on ASCII letters.\<close>

definition lower_char :: "char \<Rightarrow> char" where
  "lower_char c =
     (case map_of (zip ''ABCDEFGHIJKLMNOPQRSTUVWXYZ'' ''abcdefghijklmnopqrstuvwxyz'') c of
        Some l \<Rightarrow> l
      | None \<Rightarrow> c)"

definition lower :: "string \<Rightarrow> string" where
  "lower s = map lower_char s"

definition endswith :: "string \<Rightarrow> string \<Rightarrow> bool" where
  "endswith s suf = (length suf \<le> length s \<and> drop (length s - length suf) s = suf)"

text \<open>\<open>contains s sub\<close> is Python's \<^verbatim>\<open>sub in s\<close>.\<close>

fun contains :: "string \<Rightarrow> string \<Rightarrow> bool" where
  "contains [] sub = (sub = [])"
| "contains (c # s) sub = (take (length sub) (c # s) = sub \<or> contains s sub)"

text \<open>\<open>split_first c s\<close> is \<^verbatim>\<open>s.split(c)[0]\<close>.\<close>

definition split_first :: "char \<Rightarrow> string \<Rightarrow> string" where
  "split_first c s = takeWhile (\<lambda>x. x \<noteq> c) s"

text \<open>The functions of \<^verbatim>\<open>os.path\<close> (POSIX) the source uses.\<close>

definition basename :: "path \<Rightarrow> string" where
  "basename p = rev (takeWhile (\<lambda>c. c \<noteq> CHR ''/'') (rev p))"

definition splitext :: "path \<Rightarrow> string \<times> string" where
  "splitext p =
     (let tail = basename p;
          hd_part = take (length p - length tail) p;
          after_dot = rev (takeWhile (\<lambda>c. c \<noteq> CHR ''.'') (rev tail));
          stem = take (length tail - length after_dot - 1) tail
      in if CHR ''.'' \<in> set tail \<and> dropWhile (\<lambda>c. c = CHR ''.'') stem \<noteq> []
         then (hd_part @ stem, CHR ''.'' # after_dot)
         else (p, []))"

definition path_join :: "path \<Rightarrow> string \<Rightarrow> path" where
  "path_join a b =
     (if b \<noteq> [] \<and> hd b = CHR ''/'' then b
      else if a = [] \<or> last a = CHR ''/'' then a @ b
      else a @ ''/'' @ b)"

text \<open>Decimal digits of a number, and \<^verbatim>\<open>{:0wd}\<close>.\<close>

definition digit_char :: "nat \<Rightarrow> char" where
  "digit_char d = ''0123456789'' ! d"

fun str_nat :: "nat \<Rightarrow> string" where
  "str_nat n = (if n < 10 then [digit_char n] else str_nat (n div 10) @ [digit_char (n mod 10)])"

declare str_nat.simps [simp del]

definition format_index :: "nat \<Rightarrow> nat \<Rightarrow> string" where
  "format_index w n = replicate (w - length (str_nat n)) CHR ''0'' @ str_nat n"

fun render :: "nat \<Rightarrow> string \<Rightarrow> nat \<Rightarrow> string \<Rightarrow> string \<Rightarrow> token \<Rightarrow> string" where
  "render i f ts d t (Lit s) = s"
| "render i f ts d t (Index w) = format_index w i"
| "render i f ts d t Filename = f"
| "render i f ts d t Timestamp = str_nat ts"
| "render i f ts d t Date = d"
| "render i f ts d t Time = t"

definition format_pattern :: "token list \<Rightarrow> nat \<Rightarrow> string \<Rightarrow> nat \<Rightarrow> string \<Rightarrow> string \<Rightarrow> string" where
  "format_pattern toks i f ts d t = concat (map (render i f ts d t) toks)"

subsection \<open>The classifier\<close>

definition image_types :: "string list" where
  "image_types = [''image/jpeg'', ''image/png'', ''image/gif'', ''image/bmp'',
                  ''image/webp'', ''image/tiff'', ''image/svg+xml'']"

text \<open>
  The outer \<^verbatim>\<open>try\<close> block of \<^verbatim>\<open>is_image_url\<close>. Only \<^verbatim>\<open>urlparse\<close> can raise out
  of it: the HEAD probe sits in an inner \<^verbatim>\<open>try\<close> whose bare \<^verbatim>\<open>except\<close> passes on to
  \<^verbatim>\<open>return False\<close>.
\<close>

definition is_image_url_try :: "env \<Rightarrow> config \<Rightarrow> url \<Rightarrow> world \<Rightarrow> (exn + bool) \<times> world" where
  "is_image_url_try e cfg u w =
     (case urlparse_path e u of
        Inl err \<Rightarrow> (Inl err, w)
      | Inr p \<Rightarrow>
          if list_ex (endswith (lower p)) (supported_extensions cfg) then (Inr True, w)
          else
            let w1 = w\<lparr>net_log := net_log w @ [HEAD u]\<rparr> in
            (case http_head e u (length (net_log w)) of
               Inl err \<Rightarrow> (Inr False, w1)
             | Inr ct \<Rightarrow> (Inr (list_ex (contains (lower ct)) image_types), w1)))"

text \<open>\<^verbatim>\<open>is_image_url\<close>: the block above under \<^verbatim>\<open>except Exception: return False\<close>.\<close>

definition is_image_url :: "env \<Rightarrow> config \<Rightarrow> url \<Rightarrow> world \<Rightarrow> bool \<times> world" where
  "is_image_url e cfg u w =
     (case is_image_url_try e cfg u w of
        (Inr b, w') \<Rightarrow> (b, w')
      | (Inl err, w') \<Rightarrow> (False, w'))"

subsection \<open>Naming\<close>

definition get_save_directory :: "env \<Rightarrow> config \<Rightarrow> path" where
  "get_save_directory e cfg =
     (if auto_create_subdir cfg then path_join (save_dir cfg) (subdir_name e)
      else save_dir cfg)"

text \<open>
  \<^verbatim>\<open>get_filename_from_url(url, index)\<close>. The last line is the \<^verbatim>\<open>except\<close> branch, taken
  when \<^verbatim>\<open>urlparse\<close> raises.
\<close>

definition get_filename_from_url :: "env \<Rightarrow> config \<Rightarrow> url \<Rightarrow> nat \<Rightarrow> string" where
  "get_filename_from_url e cfg u i =
     (case urlparse_path e u of
        Inr raw \<Rightarrow>
          let p = unquote e raw; filename = basename p in
          if p \<noteq> [] \<and> filename \<noteq> [] then
            let filename1 = split_first CHR ''#'' (split_first CHR ''?'' filename) in
            case splitext filename1 of (name, ext) \<Rightarrow>
              let filename2 =
                (if ext = [] then
                   name @ (case guess_extension e raw of
                             None \<Rightarrow> ''.jpg''
                           | Some x \<Rightarrow> if x = [] then ''.jpg'' else x)
                 else filename1)
              in format_pattern (rename_pattern cfg) i filename2
                   (clock e i) (date_str e i) (time_str e i)
          else format_pattern (rename_pattern cfg) i
                 (''image_'' @ str_nat (clock e i) @ ''.jpg'')
                 (clock e i) (date_str e i) (time_str e i)
      | Inl err \<Rightarrow> ''image_'' @ format_index 3 i @ ''_'' @ str_nat (clock e i) @ ''.jpg'')"

text \<open>
  The body of the enqueue loop of \<^verbatim>\<open>download_all\<close>: the destination of the \<open>i\<close>-th
  URL, with the time stamp put before the extension when the path exists on disk.
\<close>

definition task_path :: "env \<Rightarrow> config \<Rightarrow> world \<Rightarrow> path \<Rightarrow> nat \<Rightarrow> url \<Rightarrow> path" where
  "task_path e cfg w dir i u =
     (let filename = get_filename_from_url e cfg u i;
          save_path = path_join dir filename
      in if path_exists save_path w then
           (case splitext filename of
              (name, ext) \<Rightarrow> path_join dir (name @ ''_'' @ str_nat (clock e i) @ ext))
         else save_path)"

type_synonym task = "url \<times> path \<times> nat"

fun make_tasks :: "env \<Rightarrow> config \<Rightarrow> world \<Rightarrow> path \<Rightarrow> nat \<Rightarrow> url list \<Rightarrow> task list" where
  "make_tasks e cfg w dir i [] = []"
| "make_tasks e cfg w dir i (u # us) =
     (u, task_path e cfg w dir i u, i) # make_tasks e cfg w dir (Suc i) us"

subsection \<open>The downloader object\<close>

text \<open>
  A line a worker prints for a finished task: \<^verbatim>\<open>[success] url -> path\<close>,
  \<^verbatim>\<open>[skipped] url (duplicate file)\<close> or \<^verbatim>\<open>[failed] url: error\<close>.
\<close>

datatype outcome = Succeeded url path | Skipped url | Failed url exn


record stats =
  total_n :: nat
  success :: nat
  failed :: nat
  skipped :: nat
  duplicate :: nat

text \<open>
  Where a worker thread stands: \<open>Idle\<close> is at \<^verbatim>\<open>download_queue.get\<close>; \<open>Line290 u p h\<close>
  has fetched \<open>u\<close> to \<open>p\<close>, has found the digest \<open>h\<close> absent from \<^verbatim>\<open>file_hash_set\<close>,
  and has not yet run \<^verbatim>\<open>file_hash_set.add\<close>. The source takes no lock, so other
  workers may run between the test and the add.
\<close>

datatype pc = Idle | Line290 url path digest

text \<open>
  The attributes of the object, the world (\<open>outside\<close>) and the lines printed by the
  workers.
\<close>

record state =
  outside :: world
  stats :: stats
  downloaded_files :: "path list"
  failed_urls :: "(url \<times> exn) list"
  url_hash_set :: "digest set"
  file_hash_set :: "digest set"
  download_queue :: "task list"
  threads :: "pc list"
  printed :: "outcome list"

definition zero_stats :: stats where
  "zero_stats = \<lparr>total_n = 0, success = 0, failed = 0, skipped = 0, duplicate = 0\<rparr>"

text \<open>\<^verbatim>\<open>__init__\<close>, on a given world.\<close>

definition init_state :: "world \<Rightarrow> state" where
  "init_state w =
     \<lparr>outside = w, stats = zero_stats, downloaded_files = [], failed_urls = [],
      url_hash_set = {}, file_hash_set = {}, download_queue = [], threads = [],
      printed = []\<rparr>"

subsection \<open>The worker\<close>

text \<open>The \<^verbatim>\<open>except Exception as e\<close> branch of the worker.\<close>

definition record_failure :: "url \<Rightarrow> exn \<Rightarrow> state \<Rightarrow> state" where
  "record_failure u err st =
     st\<lparr>failed_urls := failed_urls st @ [(u, err)],
        stats := (stats st)\<lparr>failed := failed (stats st) + 1\<rparr>,
        printed := printed st @ [Failed u err]\<rparr>"

text \<open>The duplicate branch, after \<^verbatim>\<open>os.remove\<close>.\<close>

definition record_duplicate :: "url \<Rightarrow> state \<Rightarrow> state" where
  "record_duplicate u st =
     st\<lparr>stats := (stats st)\<lparr>duplicate := duplicate (stats st) + 1,
                              skipped := skipped (stats st) + 1\<rparr>,
        printed := printed st @ [Skipped u]\<rparr>"

text \<open>The two lines that both success branches share.\<close>

definition record_success :: "url \<Rightarrow> path \<Rightarrow> state \<Rightarrow> state" where
  "record_success u save_path st =
     st\<lparr>downloaded_files := downloaded_files st @ [save_path],
        stats := (stats st)\<lparr>success := success (stats st) + 1\<rparr>,
        printed := printed st @ [Succeeded u save_path]\<rparr>"

text \<open>
  The worker on one task, from the call of \<^verbatim>\<open>download_image\<close> up to the end of the task
  or, when the digest is new, up to the line before \<^verbatim>\<open>file_hash_set.add\<close>.
  A digest is a non-empty string, so \<^verbatim>\<open>and file_hash\<close> only asks that it is not
  \<^verbatim>\<open>None\<close>.
\<close>

definition worker_begin :: "env \<Rightarrow> config \<Rightarrow> task \<Rightarrow> state \<Rightarrow> pc \<times> state" where
  "worker_begin e cfg task st =
     (case task of (u, save_path, index) \<Rightarrow>
        (case download_image e cfg u save_path 0 (outside st) of
           (Inl err, w1) \<Rightarrow> (Idle, record_failure u err (st\<lparr>outside := w1\<rparr>))
         | (Inr ok, w1) \<Rightarrow>
             let st1 = st\<lparr>outside := w1\<rparr> in
             if ok then
               let file_hash = calculate_file_hash e save_path w1 in
               if deduplicate cfg \<and> file_hash \<noteq> None then
                 if the file_hash \<in> file_hash_set st1 then
                   (case os_remove save_path w1 of
                      Inl err \<Rightarrow> (Idle, record_failure u err st1)
                    | Inr w2 \<Rightarrow> (Idle, record_duplicate u (st1\<lparr>outside := w2\<rparr>)))
                 else (Line290 u save_path (the file_hash), st1)
               else (Idle, record_success u save_path st1)
             else (Idle, st1)))"

text \<open>Lines 290 to 293: the digest is added, and the success recorded.\<close>

definition worker_commit :: "url \<Rightarrow> path \<Rightarrow> digest \<Rightarrow> state \<Rightarrow> state" where
  "worker_commit u save_path h st =
     record_success u save_path (st\<lparr>file_hash_set := insert h (file_hash_set st)\<rparr>)"

text \<open>One task handled by a worker that no other worker interrupts.\<close>

definition worker_task :: "env \<Rightarrow> config \<Rightarrow> task \<Rightarrow> state \<Rightarrow> state" where
  "worker_task e cfg task st =
     (case worker_begin e cfg task st of
        (Idle, st1) \<Rightarrow> st1
      | (Line290 u p h, st1) \<Rightarrow> worker_commit u p h st1)"

subsection \<open>The pool\<close>

text \<open>
  One step of worker \<open>k\<close>. An idle worker takes the first task of the queue and runs
  \<open>worker_begin\<close> (on an empty queue \<^verbatim>\<open>get\<close> times out and the loop goes on); a worker at
  line 290 runs \<open>worker_commit\<close>. A schedule is the list of the workers that step, in
  order.
\<close>

definition pool_step :: "env \<Rightarrow> config \<Rightarrow> nat \<Rightarrow> state \<Rightarrow> state" where
  "pool_step e cfg k st =
     (if k < length (threads st) then
        (case threads st ! k of
           Idle \<Rightarrow>
             (case download_queue st of
                [] \<Rightarrow> st
              | task # rest \<Rightarrow>
                  (case worker_begin e cfg task (st\<lparr>download_queue := rest\<rparr>) of
                     (pc', st1) \<Rightarrow> st1\<lparr>threads := (threads st1)[k := pc']\<rparr>))
         | Line290 u p h \<Rightarrow>
             (worker_commit u p h st)\<lparr>threads := (threads st)[k := Idle]\<rparr>)
      else st)"

fun run_pool :: "env \<Rightarrow> config \<Rightarrow> nat list \<Rightarrow> state \<Rightarrow> state" where
  "run_pool e cfg [] st = st"
| "run_pool e cfg (k # ks) st = run_pool e cfg ks (pool_step e cfg k st)"

text \<open>\<^verbatim>\<open>download_queue.join()\<close> returns once every task put was marked done.\<close>

definition batch_done :: "state \<Rightarrow> bool" where
  "batch_done st = (download_queue st = [] \<and> filter (\<lambda>p. p \<noteq> Idle) (threads st) = [])"

subsection \<open>The batch\<close>

text \<open>The loop of \<^verbatim>\<open>download_all\<close> that keeps the image URLs not yet seen.\<close>

fun filter_urls :: "env \<Rightarrow> config \<Rightarrow> url list \<Rightarrow> state \<Rightarrow> url list \<times> state" where
  "filter_urls e cfg [] st = ([], st)"
| "filter_urls e cfg (u # us) st =
     (case is_image_url e cfg u (outside st) of
        (is_img, w1) \<Rightarrow>
          let st1 = st\<lparr>outside := w1\<rparr>; url_hash = md5 e u in
          if is_img \<and> (\<not> deduplicate cfg \<or> url_hash \<notin> url_hash_set st1) then
            (case filter_urls e cfg us (st1\<lparr>url_hash_set := insert url_hash (url_hash_set st1)\<rparr>) of
               (rest, st2) \<Rightarrow> (u # rest, st2))
          else filter_urls e cfg us st1)"

text \<open>
  \<^verbatim>\<open>download_all(urls)\<close> under a schedule of its workers. The result is \<open>Some False\<close>
  when no URL is kept, \<open>Some True\<close> when the schedule brings the queue to its end, and
  \<open>None\<close> when it does not: \<^verbatim>\<open>join\<close> has not returned.
\<close>

definition download_all ::
  "env \<Rightarrow> config \<Rightarrow> url list \<Rightarrow> nat list \<Rightarrow> state \<Rightarrow> bool option \<times> state" where
  "download_all e cfg urls sched st =
     (let st0 = st\<lparr>stats := zero_stats, downloaded_files := [], failed_urls := []\<rparr> in
      case filter_urls e cfg urls st0 of
        (image_urls, st1) \<Rightarrow>
          if image_urls = [] then (Some False, st1)
          else
            let dir = get_save_directory e cfg;
                tasks = make_tasks e cfg (outside st1) dir 1 image_urls;
                st2 = st1\<lparr>download_queue := download_queue st1 @ tasks\<rparr>;
                st3 = st2\<lparr>stats := (stats st2)\<lparr>total_n := length image_urls\<rparr>\<rparr>;
                n = nat (min (max_workers cfg) (int (length image_urls)));
                st4 = st3\<lparr>threads := replicate n Idle\<rparr>;
                st5 = run_pool e cfg sched st4
            in if batch_done st5 then (Some True, st5) else (None, st5))"

subsection \<open>A configuration and an environment to run the model on\<close>

text \<open>The configuration that \<^verbatim>\<open>__init__\<close> sets, for a home directory \<^verbatim>\<open>/home/u\<close>.\<close>

definition default_config :: config where
  "default_config =
     \<lparr>save_dir = ''/home/u/Downloads/ClipboardImages'',
      max_workers = 5,
      rename_pattern = [Index 3, Lit ''_'', Filename],
      auto_create_subdir = True,
      deduplicate = True,
      supported_extensions = [''.jpg'', ''.jpeg'', ''.png'', ''.gif'', ''.bmp'', ''.webp'', ''.tiff''],
      min_file_size = 1024,
      max_file_size = 50 * 1024 * 1024,
      retry_attempts = 3,
      retry_delay = 2\<rparr>"

text \<open>
  The path of an \<^verbatim>\<open>http://host/path?query#fragment\<close> URL, as \<^verbatim>\<open>urlparse\<close> gives it.
\<close>

definition simple_path :: "url \<Rightarrow> exn + string" where
  "simple_path u =
     (let rest = (if take 7 u = ''http://'' then drop 7 u
                  else if take 8 u = ''https://'' then drop 8 u else u)
      in Inr (split_first CHR ''#''
               (split_first CHR ''?'' (dropWhile (\<lambda>c. c \<noteq> CHR ''/'') rest))))"

text \<open>
  An environment over a given network: bytes that start with \<^verbatim>\<open>IMG\<close> stand for the
  images PIL accepts, the digest of some bytes is the bytes themselves, HEAD requests
  time out, and the clock stands still.
\<close>

definition demo_env :: "(url \<Rightarrow> nat \<Rightarrow> exn + response) \<Rightarrow> env" where
  "demo_env net =
     \<lparr>http_get = net,
      http_head = (\<lambda>u n. Inl (RequestException ''timed out'')),
      urlparse_path = simple_path,
      unquote = (\<lambda>s. s),
      guess_extension = (\<lambda>s. None),
      image_open = (\<lambda>b. take 3 b = ''IMG''),
      image_verify = (\<lambda>b. take 3 b = ''IMG''),
      md5 = (\<lambda>b. b),
      clock = (\<lambda>i. 1700000000),
      date_str = (\<lambda>i. ''20231114''),
      time_str = (\<lambda>i. ''221320''),
      subdir_name = ''2023-11-14''\<rparr>"

text \<open>A served image of 2003 bytes, and an HTML error page served with status 200.\<close>

definition image_body :: bytes where
  "image_body = ''IMG'' @ replicate 2000 CHR ''x''"

definition image_response :: response where
  "image_response =
     \<lparr>status_ok = True, content_length = 2003, content_type_image = True, body = image_body\<rparr>"

definition html_body :: bytes where
  "html_body = ''<html>'' @ replicate 2000 CHR ''x''"


definition empty_world :: world where
  "empty_world = \<lparr>files = Map.empty, net_log = []\<rparr>"

text \<open>A network on which every request times out.\<close>

definition net_down :: "url \<Rightarrow> nat \<Rightarrow> exn + response" where
  "net_down u n = Inl (RequestException ''timed out'')"


subsection \<open>Notions used to state the properties of a batch\<close>









text \<open>
  A network that serves the same image at every URL, the batch of the scenario, and the
  default configuration with one worker, with and without dedup.
\<close>

definition image_net :: "url \<Rightarrow> nat \<Rightarrow> exn + response" where
  "image_net u n = Inr image_response"

definition aba_urls :: "url list" where
  "aba_urls = [''http://h/a.jpg'', ''http://h/b.jpg'', ''http://h/a.jpg'']"

definition one_worker :: config where
  "one_worker = default_config\<lparr>max_workers := 1\<rparr>"

definition one_worker_no_dedup :: config where
  "one_worker_no_dedup = default_config\<lparr>max_workers := 1, deduplicate := False\<rparr>"

text \<open>Two URLs that serve the same content.\<close>

definition ab_urls :: "url list" where
  "ab_urls = [''http://h/a.jpg'', ''http://h/b.jpg'']"

section \<open>Properties\<close>

subsection \<open>The fetch\<close>



lemma download_try_True: "download_try e cfg u p w = (Inr ok, w') \<Longrightarrow> ok"
  by (simp add: download_try_def Let_def split: sum.splits if_splits)

lemma download_try_ok_file:
  "download_try e cfg u p w = (Inr ok, w') \<Longrightarrow> files w' p \<noteq> None"
  by (auto simp add: download_try_def Let_def write_file_def split: sum.splits if_splits)




lemma download_image_True: "download_image e cfg u p rc w = (Inr ok, w') \<Longrightarrow> ok \<and> files w' p \<noteq> None"
proof (induction e cfg u p rc w rule: download_image.induct)
  case (1 e cfg u p rc w)
  obtain r w1 where t: "download_try e cfg u p w = (r, w1)" by (cases "download_try e cfg u p w")
  show ?case
  proof (cases r)
    case (Inr ok1)
    then have "ok1 = ok \<and> w1 = w'" using t "1.prems" by (simp add: download_image.simps[of e cfg u p rc w])
    then show ?thesis using t Inr download_try_True download_try_ok_file by blast
  next
    case (Inl err1)
    then have c: "int rc < retry_attempts cfg \<and> \<not> retry_delay cfg < 0"
      using t "1.prems" by (auto simp add: download_image.simps[of e cfg u p rc w] split: if_splits)
    then have "download_image e cfg u p (rc + 1) w1 = (Inr ok, w')"
      using t Inl "1.prems" by (simp add: download_image.simps[of e cfg u p rc w])
    then show ?thesis using "1.IH"[OF t[symmetric] Inl] c by simp
  qed
qed












lemma length_html_body: "length html_body = 2006"
  by (simp add: html_body_def)


lemma download_image_first_ok:
  "download_try e cfg u p w = (Inr ok, w') \<Longrightarrow> download_image e cfg u p rc w = (Inr ok, w')"
  by (simp add: download_image.simps[of e cfg u p rc w])

lemma demo_fetch_ok:
  "download_try (demo_env (\<lambda>u n. Inr image_response)) (default_config\<lparr>deduplicate := d\<rparr>) u p w
     = (Inr True, write_file p image_body (w\<lparr>net_log := net_log w @ [GET u]\<rparr>))"
  by (simp add: download_try_def demo_env_def image_response_def default_config_def image_body_def)

lemma demo_download_ok:
  "download_image (demo_env (\<lambda>u n. Inr image_response)) (default_config\<lparr>deduplicate := d\<rparr>) u p 0 w
     = (Inr True, write_file p image_body (w\<lparr>net_log := net_log w @ [GET u]\<rparr>))"
  by (rule download_image_first_ok) (rule demo_fetch_ok)

lemma demo_file_hash:
  "calculate_file_hash (demo_env net) p (write_file p b w) = Some b"
  by (simp add: calculate_file_hash_def write_file_def demo_env_def)

subsection \<open>The worker\<close>

text \<open>
  Claim C4. With dedup enabled, when the fetch succeeds and the digest of the written file
  is already in \<open>file_hash_set\<close>, the worker deletes the file, adds one to \<open>duplicate\<close>
  and to \<open>skipped\<close>, prints the skip, and leaves \<open>success\<close>, \<open>downloaded_files\<close> and
  the digest set as they were.
\<close>

theorem duplicate_content_deleted:
  assumes "deduplicate cfg"
    and "download_image e cfg u p 0 (outside st) = (Inr ok, w1)"
    and "calculate_file_hash e p w1 = Some h"
    and "h \<in> file_hash_set st"
  shows "\<exists>st'. worker_begin e cfg (u, p, i) st = (Idle, st') \<and>
           outside st' = delete_file p w1 \<and> files (outside st') p = None \<and>
           duplicate (stats st') = duplicate (stats st) + 1 \<and>
           skipped (stats st') = skipped (stats st) + 1 \<and>
           success (stats st') = success (stats st) \<and>
           failed (stats st') = failed (stats st) \<and>
           downloaded_files st' = downloaded_files st \<and>
           file_hash_set st' = file_hash_set st \<and>
           printed st' = printed st @ [Skipped u]"
proof -
  have ok: "ok" and ex: "files w1 p \<noteq> None"
    using download_image_True[OF assms(2)] by simp_all
  have rm: "os_remove p w1 = Inr (delete_file p w1)"
    using ex by (simp add: os_remove_def path_exists_def)
  have "worker_begin e cfg (u, p, i) st
          = (Idle, record_duplicate u (st\<lparr>outside := delete_file p w1\<rparr>))"
    using assms ok rm by (simp add: worker_begin_def)
  then show ?thesis
    by (simp add: record_duplicate_def delete_file_def)
qed

theorem duplicate_content_deleted_witness:
  "\<exists>st'. worker_begin (demo_env (\<lambda>u n. Inr image_response)) default_config
             (''http://h/b.jpg'', ''/d/002_b.jpg'', 2)
             ((init_state empty_world)\<lparr>file_hash_set := {image_body}\<rparr>) = (Idle, st') \<and>
          files (outside st') ''/d/002_b.jpg'' = None \<and>
          duplicate (stats st') = 1 \<and> skipped (stats st') = 1 \<and> success (stats st') = 0 \<and>
          downloaded_files st' = [] \<and> printed st' = [Skipped ''http://h/b.jpg'']"
proof -
  let ?e = "demo_env (\<lambda>u n. Inr image_response)"
  let ?st = "(init_state empty_world)\<lparr>file_hash_set := {image_body}\<rparr>"
  let ?w1 = "write_file ''/d/002_b.jpg'' image_body
               ((outside ?st)\<lparr>net_log := net_log (outside ?st) @ [GET ''http://h/b.jpg'']\<rparr>)"
  have c: "deduplicate default_config" by (simp add: default_config_def)
  have d: "download_image ?e default_config ''http://h/b.jpg'' ''/d/002_b.jpg'' 0 (outside ?st)
             = (Inr True, ?w1)"
    using demo_download_ok[of True "''http://h/b.jpg''" "''/d/002_b.jpg''" "outside ?st"]
    by (simp add: default_config_def)
  have h: "calculate_file_hash ?e ''/d/002_b.jpg'' ?w1 = Some image_body"
    by (rule demo_file_hash)
  have m: "image_body \<in> file_hash_set ?st" by simp
  show ?thesis
    using duplicate_content_deleted[OF c d h m, of 2]
    by (auto simp add: init_state_def zero_stats_def)
qed

subsection \<open>The classifier\<close>

lemma is_image_url_try_raises:
  "fst (is_image_url_try e cfg u w) = Inl err \<Longrightarrow> urlparse_path e u = Inl err"
  by (auto simp add: is_image_url_try_def Let_def split: sum.splits if_splits)

text \<open>
  Claim C9. \<^verbatim>\<open>is_image_url\<close> returns a boolean on every URL. When the lower-cased path
  ends with a configured extension it returns \<open>True\<close> and sends no request. When the
  HEAD probe raises it returns \<open>False\<close>, and so it does when its body raises, which only
  \<^verbatim>\<open>urlparse\<close> can cause.
\<close>

theorem is_image_url_never_raises:
  "(urlparse_path e u = Inr pth \<and> list_ex (endswith (lower pth)) (supported_extensions cfg)
      \<longrightarrow> is_image_url e cfg u w = (True, w)) \<and>
   (urlparse_path e u = Inr pth \<and> \<not> list_ex (endswith (lower pth)) (supported_extensions cfg) \<and>
    http_head e u (length (net_log w)) = Inl err
      \<longrightarrow> is_image_url e cfg u w = (False, w\<lparr>net_log := net_log w @ [HEAD u]\<rparr>)) \<and>
   (fst (is_image_url_try e cfg u w) = Inl err
      \<longrightarrow> urlparse_path e u = Inl err \<and> is_image_url e cfg u w = (False, w))"
  by (auto simp add: is_image_url_def is_image_url_try_def Let_def split: sum.splits if_splits)

theorem is_image_url_never_raises_witness:
  "is_image_url (demo_env net_down) default_config ''http://h/Pic.JPG'' empty_world
     = (True, empty_world) \<and>
   is_image_url (demo_env net_down) default_config ''http://h/page'' empty_world
     = (False, empty_world\<lparr>net_log := [HEAD ''http://h/page'']\<rparr>) \<and>
   is_image_url ((demo_env net_down)\<lparr>urlparse_path := (\<lambda>u. Inl (ValueError ''Invalid IPv6 URL''))\<rparr>)
       default_config ''http://[h/a.jpg'' empty_world
     = (False, empty_world)"
proof -
  let ?e = "demo_env net_down"
  let ?e' = "(demo_env net_down)\<lparr>urlparse_path := (\<lambda>u. Inl (ValueError ''Invalid IPv6 URL''))\<rparr>"
  have p1: "urlparse_path ?e ''http://h/Pic.JPG'' = Inr ''/Pic.JPG''"
    by (simp add: demo_env_def simple_path_def split_first_def)
  have l1: "list_ex (endswith (lower ''/Pic.JPG'')) (supported_extensions default_config)"
    by (simp add: default_config_def lower_def lower_char_def endswith_def)
  have p2: "urlparse_path ?e ''http://h/page'' = Inr ''/page''"
    by (simp add: demo_env_def simple_path_def split_first_def)
  have l2: "\<not> list_ex (endswith (lower ''/page'')) (supported_extensions default_config)"
    by (simp add: default_config_def lower_def lower_char_def endswith_def)
  have h2: "http_head ?e ''http://h/page'' (length (net_log empty_world))
              = Inl (RequestException ''timed out'')"
    by (simp add: demo_env_def)
  have t3: "fst (is_image_url_try ?e' default_config ''http://[h/a.jpg'' empty_world)
              = Inl (ValueError ''Invalid IPv6 URL'')"
    by (simp add: is_image_url_try_def)
  show ?thesis
    using is_image_url_never_raises[of ?e "''http://h/Pic.JPG''" "''/Pic.JPG''" default_config
            empty_world "RequestException ''timed out''"]
          is_image_url_never_raises[of ?e "''http://h/page''" "''/page''" default_config
            empty_world "RequestException ''timed out''"]
          is_image_url_never_raises[of ?e' "''http://[h/a.jpg''" "''/x''" default_config
            empty_world "ValueError ''Invalid IPv6 URL''"]
          p1 l1 p2 l2 h2 t3
    by (simp add: empty_world_def)
qed

subsection \<open>The digest sets\<close>

lemma worker_begin_frame:
  "worker_begin e cfg t st = (pc', st') \<Longrightarrow>
     url_hash_set st' = url_hash_set st \<and> file_hash_set st' = file_hash_set st \<and>
     download_queue st' = download_queue st \<and> threads st' = threads st"
  by (auto simp add: worker_begin_def record_failure_def record_duplicate_def
      record_success_def Let_def split: prod.splits sum.splits if_splits)

lemma worker_commit_sets:
  "url_hash_set (worker_commit u p h st) = url_hash_set st \<and>
   file_hash_set (worker_commit u p h st) = insert h (file_hash_set st)"
  by (simp add: worker_commit_def record_success_def)

lemma pool_step_sets:
  "url_hash_set st \<subseteq> url_hash_set (pool_step e cfg k st) \<and>
   file_hash_set st \<subseteq> file_hash_set (pool_step e cfg k st)"
proof (cases "k < length (threads st)")
  case False
  then show ?thesis by (simp add: pool_step_def)
next
  case True
  show ?thesis
  proof (cases "threads st ! k")
    case Idle
    show ?thesis
    proof (cases "download_queue st")
      case Nil
      then show ?thesis using True Idle by (simp add: pool_step_def)
    next
      case (Cons t rest)
      obtain pc' st1 where b: "worker_begin e cfg t (st\<lparr>download_queue := rest\<rparr>) = (pc', st1)"
        by (cases "worker_begin e cfg t (st\<lparr>download_queue := rest\<rparr>)")
      show ?thesis using True Idle Cons b worker_begin_frame[OF b]
        by (simp add: pool_step_def)
    qed
  next
    case (Line290 u p h)
    then show ?thesis using True worker_commit_sets[of u p h st]
      by (auto simp add: pool_step_def)
  qed
qed

lemma run_pool_sets:
  "url_hash_set st \<subseteq> url_hash_set (run_pool e cfg ks st) \<and>
   file_hash_set st \<subseteq> file_hash_set (run_pool e cfg ks st)"
proof (induction ks arbitrary: st)
  case Nil
  show ?case by simp
next
  case (Cons k ks)
  show ?case using Cons.IH[of "pool_step e cfg k st"] pool_step_sets[of st e cfg k]
    by (simp, blast)
qed

lemma filter_urls_sets:
  "filter_urls e cfg us st = (r, st') \<Longrightarrow>
     url_hash_set st \<subseteq> url_hash_set st' \<and> file_hash_set st' = file_hash_set st"
proof (induction us arbitrary: st r st')
  case Nil
  then show ?case by simp
next
  case (Cons u us)
  obtain b w1 where i: "is_image_url e cfg u (outside st) = (b, w1)"
    by (cases "is_image_url e cfg u (outside st)")
  let ?st1 = "st\<lparr>outside := w1\<rparr>"
  show ?case
  proof (cases "b \<and> (\<not> deduplicate cfg \<or> md5 e u \<notin> url_hash_set ?st1)")
    case True
    let ?st2 = "?st1\<lparr>url_hash_set := insert (md5 e u) (url_hash_set ?st1)\<rparr>"
    obtain r2 st2 where f: "filter_urls e cfg us ?st2 = (r2, st2)"
      by (cases "filter_urls e cfg us ?st2")
    have "st' = st2" using Cons.prems i True f by (simp add: Let_def)
    then show ?thesis using Cons.IH[OF f] by auto
  next
    case False
    then have "filter_urls e cfg us ?st1 = (r, st')"
      using Cons.prems i by (auto simp add: Let_def)
    then show ?thesis using Cons.IH[of ?st1 r st'] by simp
  qed
qed

text \<open>
  Claim C8. No operation of the downloader removes an element from \<open>url_hash_set\<close> or
  from \<open>file_hash_set\<close>: a step of a worker, a whole task, and a whole batch, which does
  not clear them either, leave each set a superset of what it was.
\<close>

theorem digest_sets_grow:
  "url_hash_set st \<subseteq> url_hash_set (snd (download_all e cfg urls sched st)) \<and>
   file_hash_set st \<subseteq> file_hash_set (snd (download_all e cfg urls sched st)) \<and>
   url_hash_set st \<subseteq> url_hash_set (pool_step e cfg k st) \<and>
   file_hash_set st \<subseteq> file_hash_set (pool_step e cfg k st) \<and>
   url_hash_set st \<subseteq> url_hash_set (worker_task e cfg t st) \<and>
   file_hash_set st \<subseteq> file_hash_set (worker_task e cfg t st)"
proof -
  let ?st0 = "st\<lparr>stats := zero_stats, downloaded_files := [], failed_urls := []\<rparr>"
  obtain us st1 where f: "filter_urls e cfg urls ?st0 = (us, st1)"
    by (cases "filter_urls e cfg urls ?st0")
  have s1: "url_hash_set st \<subseteq> url_hash_set st1 \<and> file_hash_set st1 = file_hash_set st"
    using filter_urls_sets[OF f] by simp
  have a: "url_hash_set st \<subseteq> url_hash_set (snd (download_all e cfg urls sched st)) \<and>
           file_hash_set st \<subseteq> file_hash_set (snd (download_all e cfg urls sched st))"
  proof (cases "us = []")
    case True
    then show ?thesis using f s1 by (simp add: download_all_def)
  next
    case False
    let ?st4 = "st1\<lparr>download_queue := download_queue st1 @
                       make_tasks e cfg (outside st1) (get_save_directory e cfg) 1 us,
                    stats := (stats st1)\<lparr>total_n := length us\<rparr>,
                    threads := replicate (nat (min (max_workers cfg) (int (length us)))) Idle\<rparr>"
    have "snd (download_all e cfg urls sched st) = run_pool e cfg sched ?st4"
      using f False by (simp add: download_all_def Let_def)
    then show ?thesis using run_pool_sets[of ?st4 e cfg sched] s1 by auto
  qed
  obtain pc' st2 where b: "worker_begin e cfg t st = (pc', st2)"
    by (cases "worker_begin e cfg t st")
  have c: "url_hash_set st \<subseteq> url_hash_set (worker_task e cfg t st) \<and>
           file_hash_set st \<subseteq> file_hash_set (worker_task e cfg t st)"
    using b worker_begin_frame[OF b] worker_commit_sets
    by (cases pc') (auto simp add: worker_task_def)
  show ?thesis using a pool_step_sets[of st e cfg k] c by blast
qed

subsection \<open>The progress of a batch\<close>















subsection \<open>The batch\<close>



subsection \<open>Running the model on the scenario\<close>

lemma demo_is_image_a:
  "supported_extensions cfg = supported_extensions default_config \<Longrightarrow>
     is_image_url (demo_env net) cfg ''http://h/a.jpg'' w = (True, w)"
  by (simp add: is_image_url_def is_image_url_try_def demo_env_def simple_path_def
      split_first_def default_config_def lower_def lower_char_def endswith_def)

lemma demo_is_image_b:
  "supported_extensions cfg = supported_extensions default_config \<Longrightarrow>
     is_image_url (demo_env net) cfg ''http://h/b.jpg'' w = (True, w)"
  by (simp add: is_image_url_def is_image_url_try_def demo_env_def simple_path_def
      split_first_def default_config_def lower_def lower_char_def endswith_def)

lemma demo_md5: "md5 (demo_env net) b = b"
  by (simp add: demo_env_def)

lemma filter_urls_keep:
  assumes "is_image_url e cfg u (outside st) = (True, w1)"
    and "\<not> deduplicate cfg \<or> md5 e u \<notin> url_hash_set st"
    and "filter_urls e cfg us (st\<lparr>outside := w1, url_hash_set := insert (md5 e u) (url_hash_set st)\<rparr>)
           = (r, st2)"
  shows "filter_urls e cfg (u # us) st = (u # r, st2)"
  using assms by (simp add: Let_def)

lemma filter_urls_drop:
  assumes "is_image_url e cfg u (outside st) = (b, w1)"
    and "\<not> b \<or> (deduplicate cfg \<and> md5 e u \<in> url_hash_set st)"
  shows "filter_urls e cfg (u # us) st = filter_urls e cfg us (st\<lparr>outside := w1\<rparr>)"
  using assms by (auto simp add: Let_def)

lemma demo_filter_dedup:
  assumes "supported_extensions cfg = supported_extensions default_config" and "deduplicate cfg"
    and "url_hash_set st = {}"
  shows "filter_urls (demo_env net) cfg aba_urls st
     = ([''http://h/a.jpg'', ''http://h/b.jpg''],
        st\<lparr>url_hash_set := {''http://h/a.jpg'', ''http://h/b.jpg''}\<rparr>)"
proof -
  let ?e = "demo_env net"
  let ?st1 = "st\<lparr>outside := outside st, url_hash_set := insert (md5 ?e ''http://h/a.jpg'') (url_hash_set st)\<rparr>"
  let ?st2 = "?st1\<lparr>outside := outside ?st1, url_hash_set := insert (md5 ?e ''http://h/b.jpg'') (url_hash_set ?st1)\<rparr>"
  have 3: "filter_urls ?e cfg [''http://h/a.jpg''] ?st2 = ([], ?st2)"
    using filter_urls_drop[of ?e cfg "''http://h/a.jpg''" ?st2 True "outside ?st2" "[]"]
      demo_is_image_a[OF assms(1), of net "outside ?st2"] assms(2)
    by (simp add: demo_md5)
  have 2: "filter_urls ?e cfg [''http://h/b.jpg'', ''http://h/a.jpg''] ?st1 = ([''http://h/b.jpg''], ?st2)"
    by (rule filter_urls_keep[OF _ _ 3])
       (simp_all add: demo_is_image_b[OF assms(1)] demo_md5 assms(3))
  have 1: "filter_urls ?e cfg aba_urls st = ([''http://h/a.jpg'', ''http://h/b.jpg''], ?st2)"
    unfolding aba_urls_def
    by (rule filter_urls_keep[OF _ _ 2])
       (simp_all add: demo_is_image_a[OF assms(1)] demo_md5 assms(3))
  show ?thesis using 1 by (simp add: demo_md5 assms(3) insert_commute)
qed

lemma image_net_try:
  assumes "min_file_size cfg \<le> 2003" and "2003 \<le> max_file_size cfg"
  shows "download_try (demo_env image_net) cfg u p w
     = (Inr True, write_file p image_body (w\<lparr>net_log := net_log w @ [GET u]\<rparr>))"
  using assms
  by (simp add: download_try_def demo_env_def image_net_def image_response_def image_body_def)

lemma image_net_worker_begin:
  assumes "min_file_size cfg \<le> 2003" and "2003 \<le> max_file_size cfg"
  shows "worker_begin (demo_env image_net) cfg (u, p, i) st =
     (let w1 = write_file p image_body ((outside st)\<lparr>net_log := net_log (outside st) @ [GET u]\<rparr>)
      in if deduplicate cfg then
           if image_body \<in> file_hash_set st
             then (Idle, record_duplicate u (st\<lparr>outside := delete_file p w1\<rparr>))
           else (Line290 u p image_body, st\<lparr>outside := w1\<rparr>)
         else (Idle, record_success u p (st\<lparr>outside := w1\<rparr>)))"
proof -
  let ?w1 = "write_file p image_body ((outside st)\<lparr>net_log := net_log (outside st) @ [GET u]\<rparr>)"
  have d: "download_image (demo_env image_net) cfg u p 0 (outside st) = (Inr True, ?w1)"
    by (rule download_image_first_ok) (rule image_net_try[OF assms])
  have h: "calculate_file_hash (demo_env image_net) p ?w1 = Some image_body"
    by (rule demo_file_hash)
  have r: "os_remove p ?w1 = Inr (delete_file p ?w1)"
    by (simp add: os_remove_def path_exists_def write_file_def)
  show ?thesis
    using d h r by (simp add: worker_begin_def Let_def)
qed

lemma one_worker_fields:
  "min_file_size one_worker \<le> 2003" "2003 \<le> max_file_size one_worker"
  "deduplicate one_worker" "max_workers one_worker = 1"
  "supported_extensions one_worker = supported_extensions default_config"
  by (simp_all add: one_worker_def default_config_def)

lemma run_aba_dedup:
  assumes "download_queue st = [(''http://h/a.jpg'', pa, ia), (''http://h/b.jpg'', pb, ib)]"
    and "threads st = [Idle]" and "file_hash_set st = {}"
    and "stats st = \<lparr>total_n = 2, success = 0, failed = 0, skipped = 0, duplicate = 0\<rparr>"
  shows "batch_done (run_pool (demo_env image_net) one_worker [0, 0, 0] st) \<and>
         stats (run_pool (demo_env image_net) one_worker [0, 0, 0] st)
           = \<lparr>total_n = 2, success = 1, failed = 0, skipped = 1, duplicate = 1\<rparr>"
  using assms
  by (simp add: pool_step_def image_net_worker_begin[OF one_worker_fields(1,2)] one_worker_fields
      worker_commit_def record_success_def record_duplicate_def batch_done_def Let_def)

lemma no_dedup_fields:
  "min_file_size one_worker_no_dedup \<le> 2003" "2003 \<le> max_file_size one_worker_no_dedup"
  "\<not> deduplicate one_worker_no_dedup" "max_workers one_worker_no_dedup = 1"
  "supported_extensions one_worker_no_dedup = supported_extensions default_config"
  by (simp_all add: one_worker_no_dedup_def default_config_def)

lemma run_aba_no_dedup:
  assumes "download_queue st = [(''http://h/a.jpg'', pa, ia), (''http://h/b.jpg'', pb, ib),
                                (''http://h/a.jpg'', pc, ic)]"
    and "threads st = [Idle]"
    and "stats st = \<lparr>total_n = 3, success = 0, failed = 0, skipped = 0, duplicate = 0\<rparr>"
  shows "batch_done (run_pool (demo_env image_net) one_worker_no_dedup [0, 0, 0] st) \<and>
         stats (run_pool (demo_env image_net) one_worker_no_dedup [0, 0, 0] st)
           = \<lparr>total_n = 3, success = 3, failed = 0, skipped = 0, duplicate = 0\<rparr>"
  using assms
  by (simp add: pool_step_def image_net_worker_begin[OF no_dedup_fields(1,2)] no_dedup_fields
      record_success_def batch_done_def Let_def)

lemma demo_filter_no_dedup:
  assumes "supported_extensions cfg = supported_extensions default_config"
    and "\<not> deduplicate cfg" and "url_hash_set st = {}"
  shows "filter_urls (demo_env net) cfg aba_urls st
     = (aba_urls, st\<lparr>url_hash_set := {''http://h/a.jpg'', ''http://h/b.jpg''}\<rparr>)"
proof -
  let ?e = "demo_env net"
  let ?st1 = "st\<lparr>outside := outside st, url_hash_set := insert (md5 ?e ''http://h/a.jpg'') (url_hash_set st)\<rparr>"
  let ?st2 = "?st1\<lparr>outside := outside ?st1, url_hash_set := insert (md5 ?e ''http://h/b.jpg'') (url_hash_set ?st1)\<rparr>"
  let ?st3 = "?st2\<lparr>outside := outside ?st2, url_hash_set := insert (md5 ?e ''http://h/a.jpg'') (url_hash_set ?st2)\<rparr>"
  have 4: "filter_urls ?e cfg [] ?st3 = ([], ?st3)" by simp
  have 3: "filter_urls ?e cfg [''http://h/a.jpg''] ?st2 = ([''http://h/a.jpg''], ?st3)"
    by (rule filter_urls_keep[OF _ _ 4])
       (simp_all add: demo_is_image_a[OF assms(1)] assms(2))
  have 2: "filter_urls ?e cfg [''http://h/b.jpg'', ''http://h/a.jpg''] ?st1
             = ([''http://h/b.jpg'', ''http://h/a.jpg''], ?st3)"
    by (rule filter_urls_keep[OF _ _ 3])
       (simp_all add: demo_is_image_b[OF assms(1)] assms(2))
  have 1: "filter_urls ?e cfg aba_urls st = (aba_urls, ?st3)"
    unfolding aba_urls_def
    by (rule filter_urls_keep[OF _ _ 2])
       (simp_all add: demo_is_image_a[OF assms(1)] assms(2))
  show ?thesis using 1 by (simp add: demo_md5 assms(3) insert_commute)
qed

lemma download_all_run:
  assumes "filter_urls e cfg urls
             (st\<lparr>stats := zero_stats, downloaded_files := [], failed_urls := []\<rparr>) = (us, st1)"
    and "us \<noteq> []"
  shows "download_all e cfg urls sched st =
     (let st5 = run_pool e cfg sched
                  (st1\<lparr>download_queue := download_queue st1 @
                           make_tasks e cfg (outside st1) (get_save_directory e cfg) 1 us,
                       stats := (stats st1)\<lparr>total_n := length us\<rparr>,
                       threads := replicate (nat (min (max_workers cfg) (int (length us)))) Idle\<rparr>)
      in if batch_done st5 then (Some True, st5) else (None, st5))"
  using assms by (simp add: download_all_def Let_def)

lemma aba_dedup_result:
  "fst (download_all (demo_env image_net) one_worker aba_urls [0, 0, 0] (init_state empty_world))
     = Some True \<and>
   stats (snd (download_all (demo_env image_net) one_worker aba_urls [0, 0, 0]
                 (init_state empty_world)))
     = \<lparr>total_n = 2, success = 1, failed = 0, skipped = 1, duplicate = 1\<rparr>"
proof -
  let ?e = "demo_env image_net"
  let ?st0 = "(init_state empty_world)\<lparr>stats := zero_stats, downloaded_files := [], failed_urls := []\<rparr>"
  let ?st1 = "?st0\<lparr>url_hash_set := {''http://h/a.jpg'', ''http://h/b.jpg''}\<rparr>"
  let ?us = "[''http://h/a.jpg'', ''http://h/b.jpg'']"
  let ?st4 = "?st1\<lparr>download_queue := download_queue ?st1 @
                           make_tasks ?e one_worker (outside ?st1) (get_save_directory ?e one_worker) 1 ?us,
                       stats := (stats ?st1)\<lparr>total_n := length ?us\<rparr>,
                       threads := replicate (nat (min (max_workers one_worker) (int (length ?us)))) Idle\<rparr>"
  have f: "filter_urls ?e one_worker aba_urls ?st0 = (?us, ?st1)"
    by (rule demo_filter_dedup[OF one_worker_fields(5) one_worker_fields(3)])
       (simp add: init_state_def)
  have r: "batch_done (run_pool ?e one_worker [0, 0, 0] ?st4) \<and>
           stats (run_pool ?e one_worker [0, 0, 0] ?st4)
             = \<lparr>total_n = 2, success = 1, failed = 0, skipped = 1, duplicate = 1\<rparr>"
    by (rule run_aba_dedup)
       (simp_all add: init_state_def zero_stats_def one_worker_fields)
  show ?thesis
    using r by (simp add: download_all_run[OF f] Let_def)
qed

lemma aba_no_dedup_result:
  "fst (download_all (demo_env image_net) one_worker_no_dedup aba_urls [0, 0, 0]
          (init_state empty_world))
     = Some True \<and>
   stats (snd (download_all (demo_env image_net) one_worker_no_dedup aba_urls [0, 0, 0]
                 (init_state empty_world)))
     = \<lparr>total_n = 3, success = 3, failed = 0, skipped = 0, duplicate = 0\<rparr>"
proof -
  let ?e = "demo_env image_net"
  let ?c = one_worker_no_dedup
  let ?st0 = "(init_state empty_world)\<lparr>stats := zero_stats, downloaded_files := [], failed_urls := []\<rparr>"
  let ?st1 = "?st0\<lparr>url_hash_set := {''http://h/a.jpg'', ''http://h/b.jpg''}\<rparr>"
  let ?st4 = "?st1\<lparr>download_queue := download_queue ?st1 @
                           make_tasks ?e ?c (outside ?st1) (get_save_directory ?e ?c) 1 aba_urls,
                       stats := (stats ?st1)\<lparr>total_n := length aba_urls\<rparr>,
                       threads := replicate (nat (min (max_workers ?c) (int (length aba_urls)))) Idle\<rparr>"
  have f: "filter_urls ?e ?c aba_urls ?st0 = (aba_urls, ?st1)"
    by (rule demo_filter_no_dedup[OF no_dedup_fields(5) no_dedup_fields(3)])
       (simp add: init_state_def)
  have ne: "aba_urls \<noteq> []" by (simp add: aba_urls_def)
  have r: "batch_done (run_pool ?e ?c [0, 0, 0] ?st4) \<and>
           stats (run_pool ?e ?c [0, 0, 0] ?st4)
             = \<lparr>total_n = 3, success = 3, failed = 0, skipped = 0, duplicate = 0\<rparr>"
    by (rule run_aba_no_dedup)
       (simp_all add: init_state_def zero_stats_def no_dedup_fields aba_urls_def)
  show ?thesis
    using r by (simp add: download_all_run[OF f ne] Let_def)
qed

text \<open>
  Claim C2, as stated, fails: with dedup enabled the third URL is dropped by the URL-level
  filter before any task is made, so \<open>total\<close> is 2 and not 3.
\<close>

theorem aba_dedup_total_counterexample:
  "fst (download_all (demo_env image_net) one_worker aba_urls [0, 0, 0] (init_state empty_world))
     = Some True \<and>
   total_n (stats (snd (download_all (demo_env image_net) one_worker aba_urls [0, 0, 0]
                          (init_state empty_world)))) \<noteq> 3"
  using aba_dedup_result by simp

text \<open>
  Claim C2, amended. For the batch \<open>[a.jpg, b.jpg, a.jpg]\<close>, all served with the same
  content, with one worker and every fetch succeeding: with dedup enabled the statistics
  are total 2, success 1, duplicate 1, skipped 1, failed 0; with dedup disabled they are
  total 3 and success 3.
\<close>

theorem aba_scenario:
  "fst (download_all (demo_env image_net) one_worker aba_urls [0, 0, 0] (init_state empty_world))
     = Some True \<and>
   stats (snd (download_all (demo_env image_net) one_worker aba_urls [0, 0, 0]
                 (init_state empty_world)))
     = \<lparr>total_n = 2, success = 1, failed = 0, skipped = 1, duplicate = 1\<rparr> \<and>
   fst (download_all (demo_env image_net) one_worker_no_dedup aba_urls [0, 0, 0]
          (init_state empty_world))
     = Some True \<and>
   stats (snd (download_all (demo_env image_net) one_worker_no_dedup aba_urls [0, 0, 0]
                 (init_state empty_world)))
     = \<lparr>total_n = 3, success = 3, failed = 0, skipped = 0, duplicate = 0\<rparr>"
  using aba_dedup_result aba_no_dedup_result by simp



subsection \<open>Two workers and one digest\<close>

lemma default_fields:
  "min_file_size default_config \<le> 2003" "2003 \<le> max_file_size default_config"
  "deduplicate default_config" "max_workers default_config = 5"
  "supported_extensions default_config = supported_extensions default_config"
  by (simp_all add: default_config_def)

lemma demo_filter_ab:
  assumes "supported_extensions cfg = supported_extensions default_config"
    and "url_hash_set st = {}"
  shows "filter_urls (demo_env net) cfg ab_urls st
     = (ab_urls, st\<lparr>url_hash_set := {''http://h/a.jpg'', ''http://h/b.jpg''}\<rparr>)"
proof -
  let ?e = "demo_env net"
  let ?st1 = "st\<lparr>outside := outside st, url_hash_set := insert (md5 ?e ''http://h/a.jpg'') (url_hash_set st)\<rparr>"
  let ?st2 = "?st1\<lparr>outside := outside ?st1, url_hash_set := insert (md5 ?e ''http://h/b.jpg'') (url_hash_set ?st1)\<rparr>"
  have 3: "filter_urls ?e cfg [] ?st2 = ([], ?st2)" by simp
  have 2: "filter_urls ?e cfg [''http://h/b.jpg''] ?st1 = ([''http://h/b.jpg''], ?st2)"
    by (rule filter_urls_keep[OF _ _ 3])
       (simp_all add: demo_is_image_b[OF assms(1)] demo_md5 assms(2))
  have 1: "filter_urls ?e cfg ab_urls st = (ab_urls, ?st2)"
    unfolding ab_urls_def
    by (rule filter_urls_keep[OF _ _ 2])
       (simp_all add: demo_is_image_a[OF assms(1)] demo_md5 assms(2))
  show ?thesis using 1 by (simp add: demo_md5 assms(2) insert_commute)
qed

lemma run_ab_race:
  assumes "download_queue st = [(''http://h/a.jpg'', pa, ia), (''http://h/b.jpg'', pb, ib)]"
    and "threads st = [Idle, Idle]" and "file_hash_set st = {}"
    and "stats st = \<lparr>total_n = 2, success = 0, failed = 0, skipped = 0, duplicate = 0\<rparr>"
    and "printed st = []"
  shows "batch_done (run_pool (demo_env image_net) default_config [0, 1, 0, 1] st) \<and>
         stats (run_pool (demo_env image_net) default_config [0, 1, 0, 1] st)
           = \<lparr>total_n = 2, success = 2, failed = 0, skipped = 0, duplicate = 0\<rparr> \<and>
         printed (run_pool (demo_env image_net) default_config [0, 1, 0, 1] st)
           = [Succeeded ''http://h/a.jpg'' pa, Succeeded ''http://h/b.jpg'' pb] \<and>
         file_hash_set (run_pool (demo_env image_net) default_config [0, 1, 0, 1] st)
           = {image_body}"
  using assms
  by (simp add: pool_step_def image_net_worker_begin[OF default_fields(1,2)] default_fields
      worker_commit_def record_success_def record_duplicate_def batch_done_def Let_def)

lemma run_ab_serial:
  assumes "download_queue st = [(''http://h/a.jpg'', pa, ia), (''http://h/b.jpg'', pb, ib)]"
    and "threads st = [Idle, Idle]" and "file_hash_set st = {}"
    and "stats st = \<lparr>total_n = 2, success = 0, failed = 0, skipped = 0, duplicate = 0\<rparr>"
    and "printed st = []"
  shows "batch_done (run_pool (demo_env image_net) default_config [0, 0, 1] st) \<and>
         stats (run_pool (demo_env image_net) default_config [0, 0, 1] st)
           = \<lparr>total_n = 2, success = 1, failed = 0, skipped = 1, duplicate = 1\<rparr> \<and>
         printed (run_pool (demo_env image_net) default_config [0, 0, 1] st)
           = [Succeeded ''http://h/a.jpg'' pa, Skipped ''http://h/b.jpg'']"
  using assms
  by (simp add: pool_step_def image_net_worker_begin[OF default_fields(1,2)] default_fields
      worker_commit_def record_success_def record_duplicate_def batch_done_def Let_def)

lemma replicate_two: "replicate 2 x = [x, x]"
  by (simp add: numeral_2_eq_2)

lemma ab_start:
  "download_all (demo_env image_net) default_config ab_urls sched (init_state empty_world) =
     (let st5 = run_pool (demo_env image_net) default_config sched
          ((init_state empty_world)
             \<lparr>url_hash_set := {''http://h/a.jpg'', ''http://h/b.jpg''},
              download_queue :=
                make_tasks (demo_env image_net) default_config empty_world
                  (get_save_directory (demo_env image_net) default_config) 1 ab_urls,
              stats := zero_stats\<lparr>total_n := 2\<rparr>,
              threads := [Idle, Idle]\<rparr>)
      in if batch_done st5 then (Some True, st5) else (None, st5))"
proof -
  let ?e = "demo_env image_net"
  let ?st0 = "(init_state empty_world)\<lparr>stats := zero_stats, downloaded_files := [], failed_urls := []\<rparr>"
  let ?st1 = "?st0\<lparr>url_hash_set := {''http://h/a.jpg'', ''http://h/b.jpg''}\<rparr>"
  have f: "filter_urls ?e default_config ab_urls ?st0 = (ab_urls, ?st1)"
    by (rule demo_filter_ab[OF refl]) (simp add: init_state_def)
  have ne: "ab_urls \<noteq> []" by (simp add: ab_urls_def)
  have l: "length ab_urls = 2" by (simp add: ab_urls_def)
  have x: "?st1\<lparr>download_queue := download_queue ?st1 @
                  make_tasks ?e default_config (outside ?st1)
                    (get_save_directory ?e default_config) 1 ab_urls,
                stats := (stats ?st1)\<lparr>total_n := length ab_urls\<rparr>,
                threads := replicate (nat (min (max_workers default_config)
                                             (int (length ab_urls)))) Idle\<rparr>
           = (init_state empty_world)
               \<lparr>url_hash_set := {''http://h/a.jpg'', ''http://h/b.jpg''},
                download_queue :=
                  make_tasks ?e default_config empty_world
                    (get_save_directory ?e default_config) 1 ab_urls,
                stats := zero_stats\<lparr>total_n := 2\<rparr>,
                threads := [Idle, Idle]\<rparr>"
    by (simp add: l default_fields replicate_two init_state_def)
  show ?thesis
    unfolding download_all_run[OF f ne] x by (rule refl)
qed

text \<open>
  Claim C7, as stated, fails: two workers fetch the same content from two URLs, both test
  the digest before either adds it, and both record a success. The digest set holds one
  digest, and two files with that content are kept.
\<close>

theorem both_workers_succeed_counterexample:
  "fst (download_all (demo_env image_net) default_config ab_urls [0, 1, 0, 1]
          (init_state empty_world)) = Some True \<and>
   success (stats (snd (download_all (demo_env image_net) default_config ab_urls [0, 1, 0, 1]
                          (init_state empty_world)))) = 2 \<and>
   duplicate (stats (snd (download_all (demo_env image_net) default_config ab_urls [0, 1, 0, 1]
                          (init_state empty_world)))) = 0 \<and>
   file_hash_set (snd (download_all (demo_env image_net) default_config ab_urls [0, 1, 0, 1]
                          (init_state empty_world))) = {image_body}"
proof -
  let ?e = "demo_env image_net"
  let ?st4 = "(init_state empty_world)
             \<lparr>url_hash_set := {''http://h/a.jpg'', ''http://h/b.jpg''},
              download_queue :=
                make_tasks ?e default_config empty_world
                  (get_save_directory ?e default_config) 1 ab_urls,
              stats := zero_stats\<lparr>total_n := 2\<rparr>,
              threads := [Idle, Idle]\<rparr>"
  have q: "download_queue ?st4
             = [(''http://h/a.jpg'',
                 task_path ?e default_config empty_world (get_save_directory ?e default_config)
                   (Suc 0) ''http://h/a.jpg'', Suc 0),
                (''http://h/b.jpg'',
                 task_path ?e default_config empty_world (get_save_directory ?e default_config)
                   (Suc (Suc 0)) ''http://h/b.jpg'', Suc (Suc 0))]"
    by (simp add: ab_urls_def)
  have t: "threads ?st4 = [Idle, Idle]" and h: "file_hash_set ?st4 = {}"
    and s: "stats ?st4 = \<lparr>total_n = 2, success = 0, failed = 0, skipped = 0, duplicate = 0\<rparr>"
    and p: "printed ?st4 = []"
    by (simp_all add: init_state_def zero_stats_def)
  show ?thesis
    using run_ab_race[OF q t h s p] by (simp add: ab_start Let_def)
qed

lemma ab_serial_result:
  "fst (download_all (demo_env image_net) default_config ab_urls [0, 0, 1]
          (init_state empty_world)) = Some True \<and>
   stats (snd (download_all (demo_env image_net) default_config ab_urls [0, 0, 1]
                          (init_state empty_world)))
     = \<lparr>total_n = 2, success = 1, failed = 0, skipped = 1, duplicate = 1\<rparr>"
proof -
  let ?e = "demo_env image_net"
  let ?st4 = "(init_state empty_world)
             \<lparr>url_hash_set := {''http://h/a.jpg'', ''http://h/b.jpg''},
              download_queue :=
                make_tasks ?e default_config empty_world
                  (get_save_directory ?e default_config) 1 ab_urls,
              stats := zero_stats\<lparr>total_n := 2\<rparr>,
              threads := [Idle, Idle]\<rparr>"
  have q: "download_queue ?st4
             = [(''http://h/a.jpg'',
                 task_path ?e default_config empty_world (get_save_directory ?e default_config)
                   (Suc 0) ''http://h/a.jpg'', Suc 0),
                (''http://h/b.jpg'',
                 task_path ?e default_config empty_world (get_save_directory ?e default_config)
                   (Suc (Suc 0)) ''http://h/b.jpg'', Suc (Suc 0))]"
    by (simp add: ab_urls_def)
  have t: "threads ?st4 = [Idle, Idle]" and h: "file_hash_set ?st4 = {}"
    and s: "stats ?st4 = \<lparr>total_n = 2, success = 0, failed = 0, skipped = 0, duplicate = 0\<rparr>"
    and p: "printed ?st4 = []"
    by (simp_all add: init_state_def zero_stats_def)
  show ?thesis
    using run_ab_serial[OF q t h s p] by (simp add: ab_start Let_def)
qed

lemma worker_begin_duplicate:
  assumes "deduplicate cfg"
    and "download_image e cfg u p 0 (outside st) = (Inr ok, w1)"
    and "calculate_file_hash e p w1 = Some h"
    and "h \<in> file_hash_set st"
  shows "worker_begin e cfg (u, p, i) st
           = (Idle, record_duplicate u (st\<lparr>outside := delete_file p w1\<rparr>))"
proof -
  have ok: "ok" and ex: "files w1 p \<noteq> None"
    using download_image_True[OF assms(2)] by simp_all
  have rm: "os_remove p w1 = Inr (delete_file p w1)"
    using ex by (simp add: os_remove_def path_exists_def)
  show ?thesis
    using assms ok rm by (simp add: worker_begin_def)
qed

text \<open>
  Claim C7, amended. The test of a digest and its insertion are two steps of the worker,
  with no lock between them. A worker whose test comes after another worker has inserted
  the same digest, whatever ran in between, records a duplicate and no success; so with one
  worker, or whenever the second test follows the first insertion, at most one of the two
  records a success. Two workers that both stand between the test and the insertion, with
  the same digest, both record a success.
\<close>

theorem digest_test_then_add:
  "(deduplicate cfg \<and> st1 = run_pool e cfg ks (worker_commit u1 p1 h st) \<and>
    download_image e cfg u2 p2 0 (outside st1) = (Inr ok, w) \<and>
    calculate_file_hash e p2 w = Some h
    \<longrightarrow> (\<exists>st2. worker_begin e cfg (u2, p2, i2) st1 = (Idle, st2) \<and>
           success (stats st2) = success (stats st1) \<and>
           duplicate (stats st2) = duplicate (stats st1) + 1 \<and>
           skipped (stats st2) = skipped (stats st1) + 1 \<and>
           printed st2 = printed st1 @ [Skipped u2])) \<and>
   (k1 < length (threads st) \<and> k2 < length (threads st) \<and> k1 \<noteq> k2 \<and>
    threads st ! k1 = Line290 u1 p1 h \<and> threads st ! k2 = Line290 u2 p2 h
    \<longrightarrow> success (stats (run_pool e cfg [k1, k2] st)) = success (stats st) + 2 \<and>
        duplicate (stats (run_pool e cfg [k1, k2] st)) = duplicate (stats st) \<and>
        printed (run_pool e cfg [k1, k2] st)
          = printed st @ [Succeeded u1 p1, Succeeded u2 p2])"
proof (rule conjI; rule impI)
  assume a: "deduplicate cfg \<and> st1 = run_pool e cfg ks (worker_commit u1 p1 h st) \<and>
    download_image e cfg u2 p2 0 (outside st1) = (Inr ok, w) \<and>
    calculate_file_hash e p2 w = Some h"
  have "h \<in> file_hash_set (worker_commit u1 p1 h st)"
    using worker_commit_sets[of u1 p1 h st] by simp
  then have m: "h \<in> file_hash_set st1"
    using a run_pool_sets[of "worker_commit u1 p1 h st" e cfg ks] by blast
  have "worker_begin e cfg (u2, p2, i2) st1
          = (Idle, record_duplicate u2 (st1\<lparr>outside := delete_file p2 w\<rparr>))"
    using worker_begin_duplicate[of cfg e u2 p2 st1 ok w h i2] a m by blast
  then show "\<exists>st2. worker_begin e cfg (u2, p2, i2) st1 = (Idle, st2) \<and>
           success (stats st2) = success (stats st1) \<and>
           duplicate (stats st2) = duplicate (stats st1) + 1 \<and>
           skipped (stats st2) = skipped (stats st1) + 1 \<and>
           printed st2 = printed st1 @ [Skipped u2]"
    by (simp add: record_duplicate_def)
next
  assume b: "k1 < length (threads st) \<and> k2 < length (threads st) \<and> k1 \<noteq> k2 \<and>
    threads st ! k1 = Line290 u1 p1 h \<and> threads st ! k2 = Line290 u2 p2 h"
  then show "success (stats (run_pool e cfg [k1, k2] st)) = success (stats st) + 2 \<and>
        duplicate (stats (run_pool e cfg [k1, k2] st)) = duplicate (stats st) \<and>
        printed (run_pool e cfg [k1, k2] st)
          = printed st @ [Succeeded u1 p1, Succeeded u2 p2]"
    by (simp add: pool_step_def worker_commit_def record_success_def)
qed

theorem digest_test_then_add_witness:
  "(\<exists>st2. worker_begin (demo_env image_net) default_config (''http://h/b.jpg'', ''/d/002_b.jpg'', 2)
            (worker_commit ''http://h/a.jpg'' ''/d/001_a.jpg'' image_body (init_state empty_world))
          = (Idle, st2) \<and>
         success (stats st2) = 1 \<and> duplicate (stats st2) = 1 \<and>
         printed st2 = [Succeeded ''http://h/a.jpg'' ''/d/001_a.jpg'', Skipped ''http://h/b.jpg'']) \<and>
   success (stats (run_pool (demo_env image_net) default_config [0, 1]
      ((init_state empty_world)\<lparr>threads := [Line290 ''http://h/a.jpg'' ''/d/001_a.jpg'' image_body,
                                              Line290 ''http://h/b.jpg'' ''/d/002_b.jpg'' image_body]\<rparr>)))
     = 2"
proof -
  let ?e = "demo_env image_net"
  let ?S = "init_state empty_world"
  let ?st1 = "worker_commit ''http://h/a.jpg'' ''/d/001_a.jpg'' image_body ?S"
  let ?w = "write_file ''/d/002_b.jpg'' image_body
              ((outside ?st1)\<lparr>net_log := net_log (outside ?st1) @ [GET ''http://h/b.jpg'']\<rparr>)"
  let ?T = "?S\<lparr>threads := [Line290 ''http://h/a.jpg'' ''/d/001_a.jpg'' image_body,
                             Line290 ''http://h/b.jpg'' ''/d/002_b.jpg'' image_body]\<rparr>"
  have d: "download_image ?e default_config ''http://h/b.jpg'' ''/d/002_b.jpg'' 0 (outside ?st1)
             = (Inr True, ?w)"
    by (rule download_image_first_ok) (rule image_net_try[OF default_fields(1,2)])
  have h: "calculate_file_hash ?e ''/d/002_b.jpg'' ?w = Some image_body"
    by (rule demo_file_hash)
  have r: "?st1 = run_pool ?e default_config [] ?st1" by simp
  have 1: "\<exists>st2. worker_begin ?e default_config (''http://h/b.jpg'', ''/d/002_b.jpg'', 2) ?st1
                   = (Idle, st2) \<and>
             success (stats st2) = success (stats ?st1) \<and>
             duplicate (stats st2) = duplicate (stats ?st1) + 1 \<and>
             skipped (stats st2) = skipped (stats ?st1) + 1 \<and>
             printed st2 = printed ?st1 @ [Skipped ''http://h/b.jpg'']"
    using digest_test_then_add[where cfg = default_config and e = ?e and ks = "[]"
        and ?u1.0 = "''http://h/a.jpg''" and ?p1.0 = "''/d/001_a.jpg''" and h = image_body
        and st = ?S and ?st1.0 = ?st1 and ?u2.0 = "''http://h/b.jpg''"
        and ?p2.0 = "''/d/002_b.jpg''" and ok = True and w = ?w and ?i2.0 = 2]
      default_fields(3) d h r by blast
  have 2: "success (stats (run_pool ?e default_config [0, 1] ?T)) = success (stats ?T) + 2"
    using digest_test_then_add[where cfg = default_config and e = ?e
        and ?u1.0 = "''http://h/a.jpg''" and ?p1.0 = "''/d/001_a.jpg''" and h = image_body
        and st = ?T and ?u2.0 = "''http://h/b.jpg''"
        and ?p2.0 = "''/d/002_b.jpg''" and ?k1.0 = 0 and ?k2.0 = 1]
    by simp
  have 3: "success (stats ?st1) = 1 \<and> duplicate (stats ?st1) = 0 \<and>
           printed ?st1 = [Succeeded ''http://h/a.jpg'' ''/d/001_a.jpg''] \<and>
           success (stats ?T) = 0"
    by (simp add: worker_commit_def record_success_def init_state_def zero_stats_def)
  show ?thesis
    using 1 2 3 by auto
qed

end
